theory Spec2Isabelle
  imports Main "HOL-Library.AList"
begin

section \<open>Values that arrive from a client\<close>

text \<open>
  The handlers of \<^verbatim>\<open>server.js\<close> receive whatever a client put into the event: the
  username of \<^verbatim>\<open>register_user\<close> and the payload of \<^verbatim>\<open>send_message\<close> are JSON-decoded
  JavaScript values. The code tests the first for truthiness (\<^verbatim>\<open>!username\<close>), reads a
  property of the second (\<^verbatim>\<open>payload.content\<close>) and converts both the username and the
  content to strings in the templates of its log lines, so these operations are modelled
  on a datatype of such values. Of a number the code only tests whether it is zero (every
  number has a string), so it is kept as an integer (\<^verbatim>\<open>NaN\<close> has no JSON encoding). An
  object is its list of own properties.
\<close>

datatype jsval =
    JUndefined
  | JNull
  | JBool bool
  | JNum int
  | JStr string
  | JArr "jsval list"
  | JObj "(string \<times> jsval) list"

text \<open>JavaScript's ToBoolean, as \<^verbatim>\<open>if (!username)\<close> applies it.\<close>

fun truthy :: "jsval \<Rightarrow> bool" where
  "truthy JUndefined = False"
| "truthy JNull = False"
| "truthy (JBool b) = b"
| "truthy (JNum n) = (n \<noteq> 0)"
| "truthy (JStr s) = (s \<noteq> [])"
| "truthy (JArr xs) = True"
| "truthy (JObj fs) = True"

datatype error = TypeError

text \<open>
  \<^verbatim>\<open>payload.content\<close>: reading a property of \<^verbatim>\<open>undefined\<close> or \<^verbatim>\<open>null\<close> throws a
  TypeError; an object yields its property \<^verbatim>\<open>content\<close>, or \<^verbatim>\<open>undefined\<close> when it has
  none; booleans, numbers, strings and arrays have no property of that name.
\<close>

fun get_content :: "jsval \<Rightarrow> error + jsval" where
  "get_content JUndefined = Inl TypeError"
| "get_content JNull = Inl TypeError"
| "get_content (JObj fs) =
     Inr (case map_of fs ''content'' of None \<Rightarrow> JUndefined | Some v \<Rightarrow> v)"
| "get_content v = Inr JUndefined"

text \<open>
  The conversion of a value to a string, as a template literal \<^verbatim>\<open>`${v}`\<close> performs it,
  throws a TypeError for some values. An object is converted by its \<^verbatim>\<open>toString\<close> and,
  failing that, its \<^verbatim>\<open>valueOf\<close>: a decoded object inherits both, and the inherited
  \<^verbatim>\<open>toString\<close> yields \<^verbatim>\<open>[object Object]\<close>; an own property \<^verbatim>\<open>toString\<close> is a decoded
  value, which cannot be called, and then neither an own \<^verbatim>\<open>valueOf\<close> nor the inherited
  one (it returns the object) yields a primitive. An array is converted by joining the
  conversions of its elements. Every other value has a string.
\<close>

fun can_stringify :: "jsval \<Rightarrow> bool" where
  "can_stringify (JArr xs) = list_all can_stringify xs"
| "can_stringify (JObj fs) = (map_of fs ''toString'' = None)"
| "can_stringify v = True"

section \<open>Data model\<close>

text \<open>
  A Session is the object literal \<^verbatim>\<open>{ id, username, status }\<close> of line 56, a Message
  the literal of lines 83 to 92. The fields \<^verbatim>\<open>id\<close>, \<^verbatim>\<open>status\<close> and \<^verbatim>\<open>type\<close> are
  written \<open>user_id\<close>, \<open>user_status\<close>, \<open>msg_status\<close> and \<open>msg_type\<close> here.
  A connection identity (\<^verbatim>\<open>socket.id\<close>) is a string issued by the transport.
\<close>

record session =
  user_id :: string
  username :: jsval
  user_status :: string

record message =
  messageId :: string
  chatId :: string
  senderId :: string
  senderName :: jsval
  content :: jsval
  msg_type :: string
  timestamp :: string
  msg_status :: string

text \<open>
  The process-wide state: \<^verbatim>\<open>activeUsers\<close> (an object used as a dictionary keyed by
  \<^verbatim>\<open>socket.id\<close>), \<^verbatim>\<open>messageHistory\<close> (an array) and the property \<^verbatim>\<open>username\<close> that line 57
  stores on the socket object of a connection.

  The identities that the transport issues are random strings of twenty characters.
  None is an array index, and the model takes none to be the name of a property that
  every object inherits. Then \<^verbatim>\<open>activeUsers[socket.id]\<close> reads an own property or
  \<^verbatim>\<open>undefined\<close>, and \<^verbatim>\<open>Object.values\<close> lists the values in the order in which their
  keys were first inserted: assigning to an existing key keeps its place, assigning to a
  new key appends, and \<^verbatim>\<open>delete\<close> removes the key. This is an association list with
  \<open>AList.update\<close> and \<open>AList.delete\<close>.
\<close>

record state =
  activeUsers :: "(string \<times> session) list"
  messageHistory :: "message list"
  socket_username :: "(string \<times> jsval) list"

definition init :: state where
  "init = \<lparr>activeUsers = [], messageHistory = [], socket_username = []\<rparr>"

text \<open>\<^verbatim>\<open>Object.values(activeUsers)\<close>.\<close>

definition object_values :: "(string \<times> session) list \<Rightarrow> session list" where
  "object_values obj = map snd obj"

section \<open>Outbound events and their fan-out\<close>

datatype event =
    system_error string
  | user_registered string "message list"
  | user_joined string jsval
  | active_users "session list"
  | new_message message
  | typing_status string "jsval option" bool
  | user_left string

text \<open>
  The four calls a handler makes on the transport: \<^verbatim>\<open>socket.emit\<close> (to the connection
  of the handler), \<^verbatim>\<open>io.emit\<close> (to every connected client),
  \<^verbatim>\<open>socket.broadcast.emit\<close> (to every connected client except the connection of the
  handler) and \<^verbatim>\<open>socket.disconnect(close)\<close>. The first argument of each but
  \<open>io_emit\<close> is the identity of the socket the call is made on.
\<close>

datatype effect =
    socket_emit string event
  | io_emit event
  | socket_broadcast_emit string event
  | socket_disconnect string bool

text \<open>
  What the client \<open>c\<close> is sent by one call, when \<open>conns\<close> are the identities of the
  clients connected at that moment: the fan-out of the socket.io interface, which
  sections 2 and 4.3 of the specification name one, all and all-except-sender.
\<close>

fun delivered :: "string set \<Rightarrow> string \<Rightarrow> effect \<Rightarrow> event list" where
  "delivered conns c (socket_emit sid e) = (if c = sid then [e] else [])"
| "delivered conns c (io_emit e) = (if c \<in> conns then [e] else [])"
| "delivered conns c (socket_broadcast_emit sid e) =
     (if c \<in> conns \<and> c \<noteq> sid then [e] else [])"
| "delivered conns c (socket_disconnect sid b) = []"

definition received :: "string set \<Rightarrow> string \<Rightarrow> effect list \<Rightarrow> event list" where
  "received conns c out = concat (map (delivered conns c) out)"

section \<open>The clock\<close>

text \<open>
  \<^verbatim>\<open>Date.now()\<close> yields the milliseconds since the epoch, an integer;
  \<^verbatim>\<open>new Date().toISOString()\<close> yields a string that the handler stores as it is. Both
  readings are inputs of a handler call.
\<close>

record clock =
  date_now :: int
  date_iso :: string

definition digit_char :: "nat \<Rightarrow> char" where
  "digit_char d = ''0123456789'' ! d"

function dec_digits :: "nat \<Rightarrow> string" where
  "dec_digits n =
     (if n < 10 then [digit_char n] else dec_digits (n div 10) @ [digit_char (n mod 10)])"
  by pat_completeness auto
termination
  by (relation "measure (\<lambda>n. n)") auto

declare dec_digits.simps [simp del]

text \<open>\<^verbatim>\<open>Number.prototype.toString\<close> on an integer.\<close>

definition number_toString :: "int \<Rightarrow> string" where
  "number_toString i = (if i < 0 then CHR ''-'' # dec_digits (nat (- i)) else dec_digits (nat i))"

section \<open>The handlers\<close>

text \<open>
  Each handler is a function of the identity of its socket, its argument and the state.
  It returns the state and the calls made on the transport, in order, as they are when
  the handler ends, and the exception that ended it, if one did. The text that a
  \<^verbatim>\<open>console.log\<close> line writes is not modelled; the conversion of the values in its
  template to strings is, since it can throw.
\<close>

text \<open>
  \<^verbatim>\<open>socket.on('register_user', (username) => ...)\<close>, lines 49 to 71. The template of
  line 70 converts the username after the Session is stored and the three events are
  emitted.
\<close>

definition on_register_user ::
  "string \<Rightarrow> jsval \<Rightarrow> state \<Rightarrow> state \<times> effect list \<times> error option" where
  "on_register_user sid uname s =
     (if \<not> truthy uname then
        (s, [socket_emit sid (system_error ''Username cannot be empty.''),
             socket_disconnect sid True], None)
      else
        let s1 = s\<lparr>activeUsers :=
                    AList.update sid \<lparr>user_id = sid, username = uname, user_status = ''online''\<rparr>
                      (activeUsers s)\<rparr>;
            s2 = s1\<lparr>socket_username := AList.update sid uname (socket_username s1)\<rparr>
        in (s2, [socket_emit sid (user_registered sid (messageHistory s2)),
                 io_emit (user_joined sid uname),
                 io_emit (active_users (object_values (activeUsers s2)))],
            if can_stringify uname then None else Some TypeError))"

text \<open>The object literal of lines 83 to 92.\<close>

definition make_message :: "clock \<Rightarrow> session \<Rightarrow> jsval \<Rightarrow> message" where
  "make_message clk sender c =
     \<lparr>messageId = number_toString (date_now clk),
      chatId = ''group-1'',
      senderId = user_id sender,
      senderName = username sender,
      content = c,
      msg_type = ''text'',
      timestamp = date_iso clk,
      msg_status = ''delivered''\<rparr>"

text \<open>
  \<^verbatim>\<open>socket.on('send_message', (payload) => ...)\<close>, lines 75 to 103. The read of
  \<^verbatim>\<open>payload.content\<close> on line 88 comes after the check of the sender and before the
  first mutation: a TypeError there leaves the state as it was and nothing is emitted.
  The template of line 99 converts the username of the sender and the content of the
  message after the message is appended and \<^verbatim>\<open>new_message\<close> is emitted, and before
  \<^verbatim>\<open>typing_status\<close> is: a TypeError there leaves the append and the first event.
\<close>

definition on_send_message ::
  "clock \<Rightarrow> string \<Rightarrow> jsval \<Rightarrow> state \<Rightarrow> state \<times> effect list \<times> error option" where
  "on_send_message clk sid payload s =
     (case map_of (activeUsers s) sid of
        None \<Rightarrow>
          (s, [socket_emit sid (system_error ''Authentication failed. Please refresh.'')], None)
      | Some sender \<Rightarrow>
          (case get_content payload of
             Inl e \<Rightarrow> (s, [], Some e)
           | Inr c \<Rightarrow>
               let msg = make_message clk sender c;
                   s1 = s\<lparr>messageHistory := messageHistory s @ [msg]\<rparr>
               in if can_stringify (username sender) \<and> can_stringify (content msg) then
                    (s1, [io_emit (new_message msg),
                          io_emit (typing_status (user_id sender) None False)], None)
                  else
                    (s1, [io_emit (new_message msg)], Some TypeError)))"

text \<open>\<^verbatim>\<open>socket.on('typing_start', ...)\<close>, lines 106 to 112. Nothing in it can throw.\<close>

definition on_typing_start :: "string \<Rightarrow> state \<Rightarrow> state \<times> effect list" where
  "on_typing_start sid s =
     (case map_of (activeUsers s) sid of
        None \<Rightarrow> (s, [])
      | Some sender \<Rightarrow>
          (s, [socket_broadcast_emit sid
                 (typing_status (user_id sender) (Some (username sender)) True)]))"

text \<open>\<^verbatim>\<open>socket.on('typing_stop', ...)\<close>, lines 114 to 120. Nothing in it can throw.\<close>

definition on_typing_stop :: "string \<Rightarrow> state \<Rightarrow> state \<times> effect list" where
  "on_typing_stop sid s =
     (case map_of (activeUsers s) sid of
        None \<Rightarrow> (s, [])
      | Some sender \<Rightarrow>
          (s, [socket_broadcast_emit sid
                 (typing_status (user_id sender) (Some (username sender)) False)]))"

text \<open>
  \<^verbatim>\<open>socket.on('disconnect', ...)\<close>, lines 123 to 135. The template of line 126 converts
  the username of the Session before the Session is deleted.
\<close>

definition on_disconnect :: "string \<Rightarrow> state \<Rightarrow> state \<times> effect list \<times> error option" where
  "on_disconnect sid s =
     (case map_of (activeUsers s) sid of
        None \<Rightarrow> (s, [], None)
      | Some disconnectedUser \<Rightarrow>
          if can_stringify (username disconnectedUser) then
            let s1 = s\<lparr>activeUsers := AList.delete sid (activeUsers s)\<rparr>
            in (s1, [io_emit (user_left (user_id disconnectedUser)),
                     io_emit (active_users (object_values (activeUsers s1)))], None)
          else (s, [], Some TypeError))"

section \<open>The router: one event at a time\<close>

datatype inbound =
    register_user jsval
  | send_message jsval
  | typing_start
  | typing_stop
  | disconnect

fun handle ::
  "clock \<Rightarrow> string \<Rightarrow> inbound \<Rightarrow> state \<Rightarrow> state \<times> effect list \<times> error option" where
  "handle clk sid (register_user uname) s = on_register_user sid uname s"
| "handle clk sid (send_message payload) s = on_send_message clk sid payload s"
| "handle clk sid typing_start s = (case on_typing_start sid s of (s1, out) \<Rightarrow> (s1, out, None))"
| "handle clk sid typing_stop s = (case on_typing_stop sid s of (s1, out) \<Rightarrow> (s1, out, None))"
| "handle clk sid disconnect s = on_disconnect sid s"

text \<open>
  Node runs the handlers one after the other, each to its end. A run takes the events
  in the order they are dispatched, each with the clock reading and the socket it is
  dispatched on, and returns the last state, all the calls made on the transport, and
  the exception that ended the run, if one did: no handler catches, so an exception
  ends the process, and the events after it are not handled.
\<close>

fun run ::
  "state \<Rightarrow> (clock \<times> string \<times> inbound) list \<Rightarrow> state \<times> effect list \<times> error option" where
  "run s [] = (s, [], None)"
| "run s ((clk, sid, ev) # rest) =
     (case handle clk sid ev s of
        (s1, out, Some e) \<Rightarrow> (s1, out, Some e)
      | (s1, out, None) \<Rightarrow>
          (case run s1 rest of (s2, out2, r) \<Rightarrow> (s2, out @ out2, r)))"

section \<open>Predicates of the claims\<close>

text \<open>
  A well-formed Session under the key \<open>k\<close>: its \<^verbatim>\<open>id\<close> is the key, its username passed
  the check of line 50 (for a string: it is not empty) and its status is \<^verbatim>\<open>'online'\<close>.
\<close>

definition session_ok :: "string \<Rightarrow> session \<Rightarrow> bool" where
  "session_ok k u = (user_id u = k \<and> truthy (username u) \<and> user_status u = ''online'')"

definition registry_ok :: "(string \<times> session) list \<Rightarrow> bool" where
  "registry_ok reg = (distinct (map fst reg) \<and> list_all (\<lambda>(k, u). session_ok k u) reg)"

text \<open>The same for the array that an \<^verbatim>\<open>active_users\<close> event carries.\<close>

definition snapshot_ok :: "session list \<Rightarrow> bool" where
  "snapshot_ok us = (distinct (map user_id us) \<and>
     list_all (\<lambda>u. truthy (username u) \<and> user_status u = ''online'') us)"

text \<open>The event that a call on the transport carries, whoever it is sent to.\<close>

fun emitted :: "effect \<Rightarrow> event option" where
  "emitted (socket_emit sid e) = Some e"
| "emitted (io_emit e) = Some e"
| "emitted (socket_broadcast_emit sid e) = Some e"
| "emitted (socket_disconnect sid b) = None"

text \<open>The Messages of the \<^verbatim>\<open>new_message\<close> events of a sequence of events, in order.\<close>

fun message_of :: "event \<Rightarrow> message list" where
  "message_of (new_message m) = [m]"
| "message_of e = []"

definition new_messages :: "event list \<Rightarrow> message list" where
  "new_messages es = concat (map message_of es)"

text \<open>The events handed to \<^verbatim>\<open>io.emit\<close>, in order.\<close>

fun broadcast_of :: "effect \<Rightarrow> event list" where
  "broadcast_of (io_emit e) = [e]"
| "broadcast_of x = []"

definition io_events :: "effect list \<Rightarrow> event list" where
  "io_events out = concat (map broadcast_of out)"

text \<open>A call other than \<^verbatim>\<open>io.emit\<close> carries no \<^verbatim>\<open>new_message\<close>.\<close>

fun no_stray :: "effect \<Rightarrow> bool" where
  "no_stray (socket_emit sid e) = (message_of e = [])"
| "no_stray (io_emit e) = True"
| "no_stray (socket_broadcast_emit sid e) = (message_of e = [])"
| "no_stray (socket_disconnect sid b) = True"

text \<open>
  Every username in the registry has a string: none of them makes the templates of lines
  99 and 126 throw.
\<close>

definition usernames_print :: "(string \<times> session) list \<Rightarrow> bool" where
  "usernames_print reg = list_all (\<lambda>(k, u). can_stringify (username u)) reg"

text \<open>
  The events that get past the check of line 50 on the connection \<open>c\<close>: a
  \<^verbatim>\<open>register_user\<close> of \<open>c\<close> with a truthy username.
\<close>

fun registers :: "string \<Rightarrow> clock \<times> string \<times> inbound \<Rightarrow> bool" where
  "registers c (clk, sid, register_user u) = (sid = c \<and> truthy u)"
| "registers c (clk, sid, ev) = False"

section \<open>The scenario of section 8 of the specification\<close>

text \<open>
  The connections \<open>A\<close> and \<open>B\<close> register as alice and bob, in this order; \<open>A\<close> sends
  \<^verbatim>\<open>{content: "hi"}\<close>, \<open>B\<close> answers, and \<open>B\<close> disconnects.
\<close>

definition alice :: session where
  "alice = \<lparr>user_id = ''A'', username = JStr ''alice'', user_status = ''online''\<rparr>"

definition bob :: session where
  "bob = \<lparr>user_id = ''B'', username = JStr ''bob'', user_status = ''online''\<rparr>"

definition two_users :: state where
  "two_users = \<lparr>activeUsers = [(''A'', alice), (''B'', bob)], messageHistory = [],
                 socket_username = [(''A'', JStr ''alice''), (''B'', JStr ''bob'')]\<rparr>"

definition tick :: "int \<Rightarrow> clock" where
  "tick t = \<lparr>date_now = 1700000000000 + t, date_iso = ''2023-11-14T22:13:20.00'' @ number_toString t @ ''Z''\<rparr>"

definition hi :: jsval where
  "hi = JObj [(''content'', JStr ''hi'')]"

definition yo :: jsval where
  "yo = JObj [(''content'', JStr ''yo'')]"

definition hi_message :: message where
  "hi_message = \<lparr>messageId = ''1700000000003'', chatId = ''group-1'', senderId = ''A'',
      senderName = JStr ''alice'', content = JStr ''hi'', msg_type = ''text'',
      timestamp = ''2023-11-14T22:13:20.003Z'', msg_status = ''delivered''\<rparr>"

definition yo_message :: message where
  "yo_message = \<lparr>messageId = ''1700000000004'', chatId = ''group-1'', senderId = ''B'',
      senderName = JStr ''bob'', content = JStr ''yo'', msg_type = ''text'',
      timestamp = ''2023-11-14T22:13:20.004Z'', msg_status = ''delivered''\<rparr>"

definition scenario :: "(clock \<times> string \<times> inbound) list" where
  "scenario =
     [(tick 1, ''A'', register_user (JStr ''alice'')),
      (tick 2, ''B'', register_user (JStr ''bob'')),
      (tick 3, ''A'', send_message hi),
      (tick 4, ''B'', send_message yo),
      (tick 5, ''B'', disconnect)]"

definition scenario_out :: "effect list" where
  "scenario_out =
     [socket_emit ''A'' (user_registered ''A'' []),
      io_emit (user_joined ''A'' (JStr ''alice'')),
      io_emit (active_users [alice]),
      socket_emit ''B'' (user_registered ''B'' []),
      io_emit (user_joined ''B'' (JStr ''bob'')),
      io_emit (active_users [alice, bob]),
      io_emit (new_message hi_message),
      io_emit (typing_status ''A'' None False),
      io_emit (new_message yo_message),
      io_emit (typing_status ''B'' None False),
      io_emit (user_left ''B''),
      io_emit (active_users [alice])]"

definition scenario_end :: state where
  "scenario_end = \<lparr>activeUsers = [(''A'', alice)], messageHistory = [hi_message, yo_message],
                    socket_username = [(''A'', JStr ''alice''), (''B'', JStr ''bob'')]\<rparr>"

text \<open>
  A username without a string, the Session it makes on a connection \<open>D\<close>, and the state
  that its registration from the initial state leaves behind.
\<close>

definition no_string :: jsval where
  "no_string = JObj [(''toString'', JNum 1)]"

definition dora :: session where
  "dora = \<lparr>user_id = ''D'', username = no_string, user_status = ''online''\<rparr>"

definition dora_only :: state where
  "dora_only = \<lparr>activeUsers = [(''D'', dora)], messageHistory = [],
                 socket_username = [(''D'', no_string)]\<rparr>"

section \<open>Lemmas on the registry and on runs\<close>

lemma registry_ok_lookup:
  "registry_ok reg \<Longrightarrow> map_of reg k = Some u \<Longrightarrow> session_ok k u"
  by (auto simp: registry_ok_def list_all_iff dest: map_of_SomeD)

lemma list_all_update:
  "list_all P al \<Longrightarrow> P (k, v) \<Longrightarrow> list_all P (AList.update k v al)"
  by (induction al) auto

lemma registry_ok_update:
  "registry_ok reg \<Longrightarrow> session_ok k u \<Longrightarrow> registry_ok (AList.update k u reg)"
  by (simp add: registry_ok_def distinct_update list_all_update)

lemma registry_ok_delete:
  "registry_ok reg \<Longrightarrow> registry_ok (AList.delete k reg)"
proof -
  assume ok: "registry_ok reg"
  then have "distinct (map fst (AList.delete k reg))"
    by (simp add: registry_ok_def distinct_delete)
  moreover from ok have "list_all (\<lambda>(k, u). session_ok k u) (AList.delete k reg)"
    by (auto simp: registry_ok_def list_all_iff AList.delete_eq)
  ultimately show ?thesis by (simp add: registry_ok_def)
qed

lemma registry_ok_ids:
  "registry_ok reg \<Longrightarrow> map user_id (object_values reg) = map fst reg"
  by (auto simp: registry_ok_def object_values_def list_all_iff session_ok_def)

lemma registry_ok_snapshot:
  "registry_ok reg \<Longrightarrow> snapshot_ok (object_values reg)"
  unfolding snapshot_ok_def
proof
  assume ok: "registry_ok reg"
  then show "distinct (map user_id (object_values reg))"
    by (simp add: registry_ok_ids) (simp add: registry_ok_def)
  from ok show "list_all (\<lambda>u. truthy (username u) \<and> user_status u = ''online'') (object_values reg)"
    by (auto simp: registry_ok_def object_values_def list_all_iff session_ok_def)
qed

lemma delete_absent_ids:
  "registry_ok reg \<Longrightarrow> k \<notin> set (map user_id (object_values (AList.delete k reg)))"
proof -
  assume ok: "registry_ok reg"
  then have "registry_ok (AList.delete k reg)" by (rule registry_ok_delete)
  then have "map user_id (object_values (AList.delete k reg)) = map fst (AList.delete k reg)"
    by (rule registry_ok_ids)
  then show ?thesis using delete_notin_dom [of k reg] by simp
qed

lemma usernames_print_lookup:
  "usernames_print reg \<Longrightarrow> map_of reg k = Some u \<Longrightarrow> can_stringify (username u)"
  by (auto simp: usernames_print_def list_all_iff dest: map_of_SomeD)

lemma usernames_print_update:
  "usernames_print reg \<Longrightarrow> can_stringify (username u) \<Longrightarrow>
     usernames_print (AList.update k u reg)"
  by (simp add: usernames_print_def list_all_update)

lemma usernames_print_delete:
  "usernames_print reg \<Longrightarrow> usernames_print (AList.delete k reg)"
  by (auto simp: usernames_print_def list_all_iff AList.delete_eq)

lemma handle_log:
  assumes "handle clk sid ev s = (s1, out, r)"
  shows "messageHistory s1 = messageHistory s @ new_messages (io_events out)
       \<and> list_all no_stray out"
proof (cases ev)
  case (register_user u)
  with assms show ?thesis
    by (auto simp: on_register_user_def Let_def new_messages_def io_events_def split: if_splits)
next
  case (send_message p)
  with assms show ?thesis
    by (auto simp: on_send_message_def Let_def new_messages_def io_events_def
        split: option.splits sum.splits if_splits)
next
  case typing_start
  with assms show ?thesis
    by (auto simp: on_typing_start_def new_messages_def io_events_def split: option.splits)
next
  case typing_stop
  with assms show ?thesis
    by (auto simp: on_typing_stop_def new_messages_def io_events_def split: option.splits)
next
  case disconnect
  with assms show ?thesis
    by (auto simp: on_disconnect_def Let_def new_messages_def io_events_def
        split: option.splits if_splits)
qed

lemma new_messages_append: "new_messages (xs @ ys) = new_messages xs @ new_messages ys"
  by (simp add: new_messages_def)

lemma io_events_append: "io_events (xs @ ys) = io_events xs @ io_events ys"
  by (simp add: io_events_def)

lemma received_append: "received conns c (xs @ ys) = received conns c xs @ received conns c ys"
  by (simp add: received_def)

text \<open>
  The two ways a run of at least one event ends: in the exception of its first handler,
  or in the run of the rest from the state that handler leaves.
\<close>

lemma run_Cons_cases:
  assumes "run s ((clk, sid, ev) # evs) = (s', out, r)"
  obtains (throws) e where "handle clk sid ev s = (s', out, Some e)" and "r = Some e"
  | (goes_on) s1 out1 out2 where "handle clk sid ev s = (s1, out1, None)"
      and "run s1 evs = (s', out2, r)" and "out = out1 @ out2"
proof -
  obtain s1 out1 r1 where h: "handle clk sid ev s = (s1, out1, r1)"
    by (cases "handle clk sid ev s") auto
  show thesis
  proof (cases r1)
    case (Some e)
    with h assms have "s' = s1" "out = out1" "r = Some e" by simp_all
    with h Some show thesis using throws by simp
  next
    case None
    obtain s2 out2 r2 where rest: "run s1 evs = (s2, out2, r2)"
      by (cases "run s1 evs") auto
    with h None assms have "s' = s2" "out = out1 @ out2" "r = r2" by simp_all
    with h None rest show thesis using goes_on by simp
  qed
qed

lemma run_log:
  "run s evs = (s', out, r) \<Longrightarrow>
     messageHistory s' = messageHistory s @ new_messages (io_events out) \<and> list_all no_stray out"
proof (induction evs arbitrary: s s' out r)
  case Nil
  then show ?case by (simp add: new_messages_def io_events_def)
next
  case (Cons x evs)
  obtain clk sid ev where x: "x = (clk, sid, ev)" by (cases x) auto
  from Cons.prems x have "run s ((clk, sid, ev) # evs) = (s', out, r)" by simp
  then show ?case
  proof (cases rule: run_Cons_cases)
    case (throws e)
    then show ?thesis using handle_log by blast
  next
    case (goes_on s1 out1 out2)
    from goes_on(1) have h: "messageHistory s1 = messageHistory s @ new_messages (io_events out1)"
      "list_all no_stray out1" using handle_log by blast+
    from Cons.IH [OF goes_on(2)]
    have ih: "messageHistory s' = messageHistory s1 @ new_messages (io_events out2)"
      "list_all no_stray out2" by blast+
    from h ih goes_on(3) show ?thesis
      by (simp add: new_messages_append io_events_append)
  qed
qed

lemma client_view:
  "list_all no_stray out \<Longrightarrow> c \<in> conns \<Longrightarrow>
     new_messages (received conns c out) = new_messages (io_events out)"
proof (induction out)
  case Nil
  then show ?case by (simp add: received_def io_events_def)
next
  case (Cons e out)
  then have ih: "new_messages (received conns c out) = new_messages (io_events out)" by simp
  have hd: "new_messages (delivered conns c e) = new_messages (broadcast_of e)"
    using Cons.prems by (cases e) (auto simp: new_messages_def)
  have "received conns c (e # out) = delivered conns c e @ received conns c out"
    by (simp add: received_def)
  moreover have "io_events (e # out) = broadcast_of e @ io_events out"
    by (simp add: io_events_def)
  ultimately show ?case using ih hd by (simp add: new_messages_append)
qed

lemma handle_registry_ok:
  assumes "registry_ok (activeUsers s)" and "handle clk sid ev s = (s1, out, r)"
  shows "registry_ok (activeUsers s1)
       \<and> (\<forall>e\<in>set out. \<forall>us. emitted e = Some (active_users us) \<longrightarrow> snapshot_ok us)"
proof (cases ev)
  case (register_user u)
  show ?thesis
  proof (cases "truthy u")
    case True
    then have "session_ok sid \<lparr>user_id = sid, username = u, user_status = ''online''\<rparr>"
      by (simp add: session_ok_def)
    with assms(1) have "registry_ok
        (AList.update sid \<lparr>user_id = sid, username = u, user_status = ''online''\<rparr> (activeUsers s))"
      by (rule registry_ok_update)
    with assms(2) register_user True show ?thesis
      by (auto simp: on_register_user_def Let_def registry_ok_snapshot)
  next
    case False
    with assms register_user show ?thesis by (auto simp: on_register_user_def)
  qed
next
  case (send_message p)
  with assms show ?thesis
    by (auto simp: on_send_message_def Let_def split: option.splits sum.splits if_splits)
next
  case typing_start
  with assms show ?thesis by (auto simp: on_typing_start_def split: option.splits)
next
  case typing_stop
  with assms show ?thesis by (auto simp: on_typing_stop_def split: option.splits)
next
  case disconnect
  from assms(1) have "registry_ok (AList.delete sid (activeUsers s))" by (rule registry_ok_delete)
  with assms disconnect show ?thesis
    by (auto simp: on_disconnect_def Let_def registry_ok_snapshot split: option.splits if_splits)
qed

lemma run_registry_ok:
  "registry_ok (activeUsers s) \<Longrightarrow> run s evs = (s', out, r) \<Longrightarrow>
     registry_ok (activeUsers s')
   \<and> (\<forall>e\<in>set out. \<forall>us. emitted e = Some (active_users us) \<longrightarrow> snapshot_ok us)"
proof (induction evs arbitrary: s s' out r)
  case Nil
  then show ?case by simp
next
  case (Cons x evs)
  obtain clk sid ev where x: "x = (clk, sid, ev)" by (cases x) auto
  from Cons.prems x have "run s ((clk, sid, ev) # evs) = (s', out, r)" by simp
  then show ?case
  proof (cases rule: run_Cons_cases)
    case (throws e)
    with Cons.prems(1) show ?thesis using handle_registry_ok by blast
  next
    case (goes_on s1 out1 out2)
    with Cons.prems(1) have h: "registry_ok (activeUsers s1)"
      "\<forall>e\<in>set out1. \<forall>us. emitted e = Some (active_users us) \<longrightarrow> snapshot_ok us"
      using handle_registry_ok by blast+
    from Cons.IH [OF h(1) goes_on(2)] have ih: "registry_ok (activeUsers s')"
      "\<forall>e\<in>set out2. \<forall>us. emitted e = Some (active_users us) \<longrightarrow> snapshot_ok us" by blast+
    from h ih goes_on(3) show ?thesis by auto
  qed
qed

text \<open>
  A handler that ends without an exception leaves only usernames that have a string: a
  \<^verbatim>\<open>register_user\<close> whose username has none throws on line 70.
\<close>

lemma handle_usernames_print:
  assumes "usernames_print (activeUsers s)" and "handle clk sid ev s = (s1, out, None)"
  shows "usernames_print (activeUsers s1)"
proof (cases ev)
  case (register_user u)
  show ?thesis
  proof (cases "truthy u")
    case True
    with assms(2) register_user have p: "can_stringify u"
      by (auto simp: on_register_user_def Let_def split: if_splits)
    then have "can_stringify
        (username \<lparr>user_id = sid, username = u, user_status = ''online''\<rparr>)" by simp
    with assms(1) have "usernames_print
        (AList.update sid \<lparr>user_id = sid, username = u, user_status = ''online''\<rparr> (activeUsers s))"
      by (rule usernames_print_update)
    with assms(2) register_user True p show ?thesis
      by (auto simp: on_register_user_def Let_def)
  next
    case False
    with assms register_user show ?thesis by (auto simp: on_register_user_def)
  qed
next
  case (send_message p)
  with assms show ?thesis
    by (auto simp: on_send_message_def Let_def split: option.splits sum.splits if_splits)
next
  case typing_start
  with assms show ?thesis by (auto simp: on_typing_start_def split: option.splits)
next
  case typing_stop
  with assms show ?thesis by (auto simp: on_typing_stop_def split: option.splits)
next
  case disconnect
  from assms(1) have "usernames_print (AList.delete sid (activeUsers s))"
    by (rule usernames_print_delete)
  with assms disconnect show ?thesis
    by (auto simp: on_disconnect_def Let_def split: option.splits if_splits)
qed

lemma run_usernames_print:
  "usernames_print (activeUsers s) \<Longrightarrow> run s evs = (s', out, None) \<Longrightarrow>
     usernames_print (activeUsers s')"
proof (induction evs arbitrary: s s' out)
  case Nil
  then show ?case by simp
next
  case (Cons x evs)
  obtain clk sid ev where x: "x = (clk, sid, ev)" by (cases x) auto
  from Cons.prems x have "run s ((clk, sid, ev) # evs) = (s', out, None)" by simp
  then show ?case
  proof (cases rule: run_Cons_cases)
    case (throws e)
    then show ?thesis by simp
  next
    case (goes_on s1 out1 out2)
    with Cons.prems(1) have "usernames_print (activeUsers s1)"
      using handle_usernames_print by blast
    from Cons.IH [OF this goes_on(2)] show ?thesis .
  qed
qed

lemma handle_keeps_session:
  assumes "handle clk sid ev s = (s1, out, r)" and "\<not> registers c (clk, sid, ev)"
    and "map_of (activeUsers s1) c = Some u'"
  shows "map_of (activeUsers s) c = Some u'"
proof (cases ev)
  case (register_user u)
  show ?thesis
  proof (cases "truthy u")
    case True
    with assms(2) register_user have "sid \<noteq> c" by simp
    with assms(1,3) register_user True show ?thesis
      by (auto simp: on_register_user_def Let_def update_conv')
  next
    case False
    with assms register_user show ?thesis by (auto simp: on_register_user_def)
  qed
next
  case (send_message p)
  with assms show ?thesis
    by (auto simp: on_send_message_def Let_def split: option.splits sum.splits if_splits)
next
  case typing_start
  with assms show ?thesis by (auto simp: on_typing_start_def split: option.splits)
next
  case typing_stop
  with assms show ?thesis by (auto simp: on_typing_stop_def split: option.splits)
next
  case disconnect
  with assms show ?thesis
    by (auto simp: on_disconnect_def Let_def delete_conv' split: option.splits if_splits)
qed

lemma run_keeps_session:
  "run s evs = (s', out, r) \<Longrightarrow> \<not> list_ex (registers c) evs \<Longrightarrow>
     map_of (activeUsers s') c = Some u' \<Longrightarrow> map_of (activeUsers s) c = Some u'"
proof (induction evs arbitrary: s s' out r)
  case Nil
  then show ?case by simp
next
  case (Cons x evs)
  obtain clk sid ev where x: "x = (clk, sid, ev)" by (cases x) auto
  from Cons.prems(2) x have nx: "\<not> registers c (clk, sid, ev)"
    and nr: "\<not> list_ex (registers c) evs"
    by simp_all
  from Cons.prems(1) x have "run s ((clk, sid, ev) # evs) = (s', out, r)" by simp
  then show ?case
  proof (cases rule: run_Cons_cases)
    case (throws e)
    with nx Cons.prems(3) show ?thesis using handle_keeps_session by blast
  next
    case (goes_on s1 out1 out2)
    from Cons.IH [OF goes_on(2) nr Cons.prems(3)] have "map_of (activeUsers s1) c = Some u'" .
    with goes_on(1) nx show ?thesis using handle_keeps_session by blast
  qed
qed

lemma scenario_run: "run init scenario = (scenario_end, scenario_out, None)"
  by (simp add: scenario_def scenario_end_def scenario_out_def init_def tick_def hi_def yo_def
      hi_message_def yo_message_def alice_def bob_def
      on_register_user_def on_send_message_def on_disconnect_def make_message_def
      object_values_def number_toString_def dec_digits.simps digit_char_def Let_def)

lemma two_users_ok: "registry_ok (activeUsers two_users)"
  by (simp add: two_users_def registry_ok_def session_ok_def alice_def bob_def)

lemma dora_only_ok: "registry_ok (activeUsers dora_only)"
  by (simp add: dora_only_def registry_ok_def session_ok_def dora_def no_string_def)

section \<open>The claims\<close>

text \<open>
  The two exceptions of \<^verbatim>\<open>send_message\<close> on a connection that has a Session. A payload
  without properties to read throws on line 88, before the first mutation and the first
  emission. A content (or a username of the sender) without a string, such as the object
  \<^verbatim>\<open>{toString: 1}\<close>, throws on line 99: the Message is appended and \<^verbatim>\<open>new_message\<close> is
  emitted, \<^verbatim>\<open>typing_status\<close> is not.
\<close>

lemma send_message_nullish_throws:
  assumes "map_of (activeUsers s) sid = Some sender"
  shows "on_send_message clk sid JUndefined s = (s, [], Some TypeError)"
    and "on_send_message clk sid JNull s = (s, [], Some TypeError)"
  using assms by (simp_all add: on_send_message_def)

lemma send_message_template_throws:
  assumes "map_of (activeUsers s) sid = Some sender"
    and "get_content payload = Inr c"
    and "\<not> (can_stringify (username sender) \<and> can_stringify c)"
  shows "on_send_message clk sid payload s =
           (s\<lparr>messageHistory := messageHistory s @ [make_message clk sender c]\<rparr>,
            [io_emit (new_message (make_message clk sender c))], Some TypeError)"
  using assms by (simp add: on_send_message_def make_message_def Let_def)

lemma send_message_toString_object:
  "on_send_message (tick 3) ''A'' (JObj [(''content'', JObj [(''toString'', JNum 1)])]) two_users =
     (two_users\<lparr>messageHistory :=
        [hi_message\<lparr>content := JObj [(''toString'', JNum 1)]\<rparr>]\<rparr>,
      [io_emit (new_message (hi_message\<lparr>content := JObj [(''toString'', JNum 1)]\<rparr>))],
      Some TypeError)"
  by (simp add: on_send_message_def make_message_def two_users_def alice_def tick_def
      hi_message_def number_toString_def dec_digits.simps digit_char_def Let_def)

text \<open>
  Claim C1. On a connection whose identity has a Session in the registry, a
  \<^verbatim>\<open>send_message\<close> whose payload has properties to read (it is neither \<^verbatim>\<open>undefined\<close>
  nor \<^verbatim>\<open>null\<close>) and whose content has a string (every string content has) appends exactly
  one Message to the log and changes nothing else. The username of the sender has a
  string too, as it has in every state that a run reaches without an exception (the
  theorem of claim C10). The content of the Message is \<^verbatim>\<open>payload.content\<close>, its sender
  fields are those of the Session, its \<^verbatim>\<open>chatId\<close> is \<^verbatim>\<open>'group-1'\<close>, its type \<^verbatim>\<open>'text'\<close>
  and its status \<^verbatim>\<open>'delivered'\<close>. The handler then emits to all that Message as
  \<^verbatim>\<open>new_message\<close> and after it \<^verbatim>\<open>typing_status\<close> with the sender's id and
  \<^verbatim>\<open>isTyping: false\<close>, without a username, and ends without an exception: every connected
  client, the sender among them, receives these two events in this order.
\<close>

theorem send_message_appends_and_broadcasts:
  assumes "map_of (activeUsers s) sid = Some sender"
    and "can_stringify (username sender)"
    and "get_content payload = Inr c"
    and "can_stringify c"
  shows "\<exists>msg s' out.
      on_send_message clk sid payload s = (s', out, None)
    \<and> s' = s\<lparr>messageHistory := messageHistory s @ [msg]\<rparr>
    \<and> content msg = c
    \<and> senderId msg = user_id sender \<and> senderName msg = username sender
    \<and> chatId msg = ''group-1'' \<and> msg_type msg = ''text'' \<and> msg_status msg = ''delivered''
    \<and> out = [io_emit (new_message msg), io_emit (typing_status (senderId msg) None False)]
    \<and> (\<forall>cl\<in>conns. received conns cl out =
          [new_message msg, typing_status (senderId msg) None False])"
  using assms
  by (simp add: on_send_message_def make_message_def received_def Let_def)

theorem send_message_appends_and_broadcasts_witness:
  "map_of (activeUsers two_users) ''A'' = Some alice
 \<and> can_stringify (username alice)
 \<and> get_content hi = Inr (JStr ''hi'')
 \<and> can_stringify (JStr ''hi'')
 \<and> (\<exists>msg. on_send_message (tick 3) ''A'' hi two_users =
        (two_users\<lparr>messageHistory := [msg]\<rparr>,
         [io_emit (new_message msg), io_emit (typing_status ''A'' None False)], None)
      \<and> content msg = JStr ''hi'' \<and> senderName msg = JStr ''alice''
      \<and> received {''A'', ''B''} ''A''
           [io_emit (new_message msg), io_emit (typing_status ''A'' None False)] =
           [new_message msg, typing_status ''A'' None False]
      \<and> received {''A'', ''B''} ''B''
           [io_emit (new_message msg), io_emit (typing_status ''A'' None False)] =
           [new_message msg, typing_status ''A'' None False])"
proof -
  have h1: "map_of (activeUsers two_users) ''A'' = Some alice"
    by (simp add: two_users_def)
  have h2: "can_stringify (username alice)"
    by (simp add: alice_def)
  have h3: "get_content hi = Inr (JStr ''hi'')"
    by (simp add: hi_def)
  have h4: "can_stringify (JStr ''hi'')"
    by simp
  have id: "user_id alice = ''A''" and name: "username alice = JStr ''alice''"
    by (simp_all add: alice_def)
  have log: "messageHistory two_users = []"
    by (simp add: two_users_def)
  from send_message_appends_and_broadcasts [OF h1 h2 h3 h4, of "tick 3" "{''A'', ''B''}"]
  obtain msg s' out where
    r: "on_send_message (tick 3) ''A'' hi two_users = (s', out, None)"
    and s': "s' = two_users\<lparr>messageHistory := messageHistory two_users @ [msg]\<rparr>"
    and m: "content msg = JStr ''hi''" "senderId msg = user_id alice"
      "senderName msg = username alice"
    and out: "out = [io_emit (new_message msg), io_emit (typing_status (senderId msg) None False)]"
    and rcv: "\<forall>cl\<in>{''A'', ''B''}. received {''A'', ''B''} cl out =
          [new_message msg, typing_status (senderId msg) None False]"
    by blast
  from rcv have "received {''A'', ''B''} ''A'' out =
      [new_message msg, typing_status (senderId msg) None False]"
    and "received {''A'', ''B''} ''B'' out =
      [new_message msg, typing_status (senderId msg) None False]"
    by simp_all
  with r s' m out id name log h1 h2 h3 h4 show ?thesis
    by (intro conjI exI [of _ msg]) simp_all
qed

text \<open>
  Claim C2. A \<^verbatim>\<open>register_user\<close> whose username passes the check of line 50 (every
  non-empty string does) stores the Session \<^verbatim>\<open>{id, username, status: 'online'}\<close> under the
  identity of the connection, leaves the other Sessions and the log as they were, and
  emits, in this order: \<^verbatim>\<open>user_registered\<close> with that identity and the whole log, to the
  sender only; \<^verbatim>\<open>user_joined\<close> with identity and username, to all; \<^verbatim>\<open>active_users\<close> with
  the values of the registry after the insertion, the new Session among them, to all.
  After that the handler ends, without an exception when the username has a string (every
  string has) and with the TypeError of line 70 otherwise.
\<close>

theorem register_user_creates_session:
  assumes "truthy uname"
  shows "\<exists>s' out.
      on_register_user sid uname s =
        (s', out, if can_stringify uname then None else Some TypeError)
    \<and> map_of (activeUsers s') sid =
        Some \<lparr>user_id = sid, username = uname, user_status = ''online''\<rparr>
    \<and> (\<forall>k. k \<noteq> sid \<longrightarrow> map_of (activeUsers s') k = map_of (activeUsers s) k)
    \<and> messageHistory s' = messageHistory s
    \<and> out = [socket_emit sid (user_registered sid (messageHistory s)),
             io_emit (user_joined sid uname),
             io_emit (active_users (object_values (activeUsers s')))]
    \<and> \<lparr>user_id = sid, username = uname, user_status = ''online''\<rparr>
        \<in> set (object_values (activeUsers s'))
    \<and> (sid \<in> conns \<longrightarrow> received conns sid out =
          [user_registered sid (messageHistory s), user_joined sid uname,
           active_users (object_values (activeUsers s'))])
    \<and> (\<forall>cl\<in>conns. cl \<noteq> sid \<longrightarrow> received conns cl out =
          [user_joined sid uname, active_users (object_values (activeUsers s'))])"
proof -
  let ?new = "\<lparr>user_id = sid, username = uname, user_status = ''online''\<rparr>"
  have look: "map_of (AList.update sid ?new (activeUsers s)) sid = Some ?new"
    by (simp add: update_conv')
  then have "(sid, ?new) \<in> set (AList.update sid ?new (activeUsers s))"
    by (rule map_of_SomeD)
  then have mem: "?new \<in> set (object_values (AList.update sid ?new (activeUsers s)))"
    by (force simp: object_values_def)
  show ?thesis
    using assms look mem
    by (simp add: on_register_user_def Let_def received_def update_conv')
qed

theorem register_user_creates_session_witness:
  "truthy (JStr ''alice'')
 \<and> on_register_user ''A'' (JStr ''alice'') init =
      (\<lparr>activeUsers = [(''A'', alice)], messageHistory = [],
        socket_username = [(''A'', JStr ''alice'')]\<rparr>,
       [socket_emit ''A'' (user_registered ''A'' []),
        io_emit (user_joined ''A'' (JStr ''alice'')),
        io_emit (active_users [alice])], None)
 \<and> (\<exists>s' out. on_register_user ''A'' (JStr ''alice'') init = (s', out, None)
      \<and> map_of (activeUsers s') ''A'' = Some alice
      \<and> received {''A'', ''B''} ''A'' out =
          [user_registered ''A'' [], user_joined ''A'' (JStr ''alice''),
           active_users (object_values (activeUsers s'))]
      \<and> received {''A'', ''B''} ''B'' out =
          [user_joined ''A'' (JStr ''alice''), active_users (object_values (activeUsers s'))])
 \<and> truthy no_string
 \<and> (\<exists>s' out. on_register_user ''D'' no_string init = (s', out, Some TypeError)
      \<and> map_of (activeUsers s') ''D'' = Some dora
      \<and> out = [socket_emit ''D'' (user_registered ''D'' []),
               io_emit (user_joined ''D'' no_string),
               io_emit (active_users (object_values (activeUsers s')))])"
proof -
  have t: "truthy no_string" by (simp add: no_string_def)
  have q: "(if can_stringify no_string then None else Some TypeError) = Some TypeError"
    by (simp add: no_string_def)
  from register_user_creates_session [OF t, of "''D''" init "{''A'', ''B''}", unfolded q]
  obtain s2 out2 where
    r2: "on_register_user ''D'' no_string init = (s2, out2, Some TypeError)"
    and look2: "map_of (activeUsers s2) ''D'' =
        Some \<lparr>user_id = ''D'', username = no_string, user_status = ''online''\<rparr>"
    and out2: "out2 = [socket_emit ''D'' (user_registered ''D'' (messageHistory init)),
               io_emit (user_joined ''D'' no_string),
               io_emit (active_users (object_values (activeUsers s2)))]"
    by blast
  from look2 have "map_of (activeUsers s2) ''D'' = Some dora"
    by (simp add: dora_def)
  moreover from out2 have "out2 = [socket_emit ''D'' (user_registered ''D'' []),
               io_emit (user_joined ''D'' no_string),
               io_emit (active_users (object_values (activeUsers s2)))]"
    by (simp add: init_def)
  ultimately have throws: "\<exists>s' out. on_register_user ''D'' no_string init = (s', out, Some TypeError)
      \<and> map_of (activeUsers s') ''D'' = Some dora
      \<and> out = [socket_emit ''D'' (user_registered ''D'' []),
               io_emit (user_joined ''D'' no_string),
               io_emit (active_users (object_values (activeUsers s')))]"
    using r2 by blast
  have h: "truthy (JStr ''alice'')" by simp
  have p: "(if can_stringify (JStr ''alice'') then None else Some TypeError) = None" by simp
  have run: "on_register_user ''A'' (JStr ''alice'') init =
      (\<lparr>activeUsers = [(''A'', alice)], messageHistory = [],
        socket_username = [(''A'', JStr ''alice'')]\<rparr>,
       [socket_emit ''A'' (user_registered ''A'' []),
        io_emit (user_joined ''A'' (JStr ''alice'')),
        io_emit (active_users [alice])], None)"
    by (simp add: on_register_user_def init_def alice_def object_values_def Let_def)
  from register_user_creates_session [OF h, of "''A''" init "{''A'', ''B''}", unfolded p]
  obtain s' out where
    r: "on_register_user ''A'' (JStr ''alice'') init = (s', out, None)"
    and look: "map_of (activeUsers s') ''A'' =
        Some \<lparr>user_id = ''A'', username = JStr ''alice'', user_status = ''online''\<rparr>"
    and own: "''A'' \<in> {''A'', ''B''} \<longrightarrow> received {''A'', ''B''} ''A'' out =
          [user_registered ''A'' (messageHistory init), user_joined ''A'' (JStr ''alice''),
           active_users (object_values (activeUsers s'))]"
    and others: "\<forall>cl\<in>{''A'', ''B''}. cl \<noteq> ''A'' \<longrightarrow> received {''A'', ''B''} cl out =
          [user_joined ''A'' (JStr ''alice''), active_users (object_values (activeUsers s'))]"
    by blast
  from others have "received {''A'', ''B''} ''B'' out =
          [user_joined ''A'' (JStr ''alice''), active_users (object_values (activeUsers s'))]"
    by simp
  moreover from own have "received {''A'', ''B''} ''A'' out =
          [user_registered ''A'' [], user_joined ''A'' (JStr ''alice''),
           active_users (object_values (activeUsers s'))]"
    by (simp add: init_def)
  moreover from look have "map_of (activeUsers s') ''A'' = Some alice"
    by (simp add: alice_def)
  ultimately show ?thesis using h run r t throws by blast
qed

text \<open>
  Claim C3. In a state whose registry is well formed (every reachable state, by the
  theorem of claim C10), the \<^verbatim>\<open>disconnect\<close> of a connection that has a Session removes
  that Session and nothing else, emits \<^verbatim>\<open>user_left\<close> with the bare identity to all, once,
  and then \<^verbatim>\<open>active_users\<close> with the values of the registry after the removal, none of
  which has that identity. This is so when the username of the Session has a string, as
  every username has in a state that a run reaches without an exception (the theorem of
  claim C10 again); on a username without one, line 126 throws before anything is done.
  The \<^verbatim>\<open>disconnect\<close> of a connection without a Session changes no state and emits
  nothing.
\<close>

theorem disconnect_removes_session:
  assumes "registry_ok (activeUsers s)"
  shows "(\<forall>u. map_of (activeUsers s) sid = Some u \<and> can_stringify (username u) \<longrightarrow>
           (\<exists>s' out. on_disconnect sid s = (s', out, None)
             \<and> s' = s\<lparr>activeUsers := AList.delete sid (activeUsers s)\<rparr>
             \<and> map_of (activeUsers s') sid = None
             \<and> (\<forall>k. k \<noteq> sid \<longrightarrow> map_of (activeUsers s') k = map_of (activeUsers s) k)
             \<and> out = [io_emit (user_left sid),
                      io_emit (active_users (object_values (activeUsers s')))]
             \<and> sid \<notin> set (map user_id (object_values (activeUsers s')))
             \<and> (\<forall>cl\<in>conns. received conns cl out =
                   [user_left sid, active_users (object_values (activeUsers s'))])))
      \<and> (\<forall>u. map_of (activeUsers s) sid = Some u \<and> \<not> can_stringify (username u) \<longrightarrow>
            on_disconnect sid s = (s, [], Some TypeError))
      \<and> (map_of (activeUsers s) sid = None \<longrightarrow> on_disconnect sid s = (s, [], None))"
proof (intro conjI allI impI)
  fix u assume "map_of (activeUsers s) sid = Some u \<and> can_stringify (username u)"
  then have u: "map_of (activeUsers s) sid = Some u" and p: "can_stringify (username u)"
    by simp_all
  from assms u have "session_ok sid u" by (rule registry_ok_lookup)
  then have id: "user_id u = sid" by (simp add: session_ok_def)
  have gone: "sid \<notin> set (map user_id (object_values (AList.delete sid (activeUsers s))))"
    using assms by (rule delete_absent_ids)
  show "\<exists>s' out. on_disconnect sid s = (s', out, None)
             \<and> s' = s\<lparr>activeUsers := AList.delete sid (activeUsers s)\<rparr>
             \<and> map_of (activeUsers s') sid = None
             \<and> (\<forall>k. k \<noteq> sid \<longrightarrow> map_of (activeUsers s') k = map_of (activeUsers s) k)
             \<and> out = [io_emit (user_left sid),
                      io_emit (active_users (object_values (activeUsers s')))]
             \<and> sid \<notin> set (map user_id (object_values (activeUsers s')))
             \<and> (\<forall>cl\<in>conns. received conns cl out =
                   [user_left sid, active_users (object_values (activeUsers s'))])"
    using u p id gone
    by (simp add: on_disconnect_def Let_def received_def delete_conv')
next
  fix u assume "map_of (activeUsers s) sid = Some u \<and> \<not> can_stringify (username u)"
  then show "on_disconnect sid s = (s, [], Some TypeError)"
    by (simp add: on_disconnect_def)
next
  assume "map_of (activeUsers s) sid = None"
  then show "on_disconnect sid s = (s, [], None)" by (simp add: on_disconnect_def)
qed

theorem disconnect_removes_session_witness:
  "registry_ok (activeUsers two_users)
 \<and> map_of (activeUsers two_users) ''B'' = Some bob
 \<and> can_stringify (username bob)
 \<and> on_disconnect ''B'' two_users =
      (two_users\<lparr>activeUsers := [(''A'', alice)]\<rparr>,
       [io_emit (user_left ''B''), io_emit (active_users [alice])], None)
 \<and> received {''A''} ''A'' (fst (snd (on_disconnect ''B'' two_users))) =
      [user_left ''B'', active_users [alice]]
 \<and> map_of (activeUsers two_users) ''C'' = None
 \<and> on_disconnect ''C'' two_users = (two_users, [], None)
 \<and> registry_ok (activeUsers dora_only)
 \<and> map_of (activeUsers dora_only) ''D'' = Some dora
 \<and> \<not> can_stringify (username dora)
 \<and> on_disconnect ''D'' dora_only = (dora_only, [], Some TypeError)"
proof -
  have d: "map_of (activeUsers dora_only) ''D'' = Some dora"
    by (simp add: dora_only_def)
  have np: "\<not> can_stringify (username dora)"
    by (simp add: dora_def no_string_def)
  from disconnect_removes_session [OF dora_only_ok, of "''D''" "{''A''}"] d np
  have throws: "on_disconnect ''D'' dora_only = (dora_only, [], Some TypeError)"
    by blast
  have b: "map_of (activeUsers two_users) ''B'' = Some bob"
    and c: "map_of (activeUsers two_users) ''C'' = None"
    by (simp_all add: two_users_def)
  have p: "can_stringify (username bob)"
    by (simp add: bob_def)
  have del: "AList.delete ''B'' (activeUsers two_users) = [(''A'', alice)]"
    by (simp add: two_users_def)
  note inst = disconnect_removes_session [OF two_users_ok]
  from inst [of "''B''" "{''A''}"] b p
  obtain s' out where
    r: "on_disconnect ''B'' two_users = (s', out, None)"
    and s': "s' = two_users\<lparr>activeUsers := AList.delete ''B'' (activeUsers two_users)\<rparr>"
    and out: "out = [io_emit (user_left ''B''),
                     io_emit (active_users (object_values (activeUsers s')))]"
    and rcv: "\<forall>cl\<in>{''A''}. received {''A''} cl out =
                   [user_left ''B'', active_users (object_values (activeUsers s'))]"
    by blast
  from s' del have vals: "object_values (activeUsers s') = [alice]"
    by (simp add: object_values_def)
  from inst [of "''C''" "{''A''}"] c
  have none: "on_disconnect ''C'' two_users = (two_users, [], None)"
    by blast
  from r s' out rcv vals del none b c p two_users_ok d np throws dora_only_ok
  show ?thesis by simp
qed

text \<open>
  Claim C4. A \<^verbatim>\<open>send_message\<close> on a connection that has no Session, whatever its
  payload, leaves the whole state (registry and log) as it was and emits one event,
  \<^verbatim>\<open>system_error\<close>, to the sender: the sender receives it and no other client receives
  anything.
\<close>

theorem send_message_unregistered_rejected:
  assumes "map_of (activeUsers s) sid = None"
  shows "on_send_message clk sid payload s =
           (s, [socket_emit sid (system_error ''Authentication failed. Please refresh.'')], None)
       \<and> received conns sid
           [socket_emit sid (system_error ''Authentication failed. Please refresh.'')] =
           [system_error ''Authentication failed. Please refresh.'']
       \<and> (\<forall>cl. cl \<noteq> sid \<longrightarrow>
            received conns cl
              [socket_emit sid (system_error ''Authentication failed. Please refresh.'')] = [])"
  using assms by (simp add: on_send_message_def received_def)

theorem send_message_unregistered_rejected_witness:
  "map_of (activeUsers two_users) ''C'' = None
 \<and> on_send_message (tick 3) ''C'' hi two_users =
      (two_users,
       [socket_emit ''C'' (system_error ''Authentication failed. Please refresh.'')], None)
 \<and> on_send_message (tick 3) ''C'' JUndefined two_users =
      (two_users,
       [socket_emit ''C'' (system_error ''Authentication failed. Please refresh.'')], None)
 \<and> received {''A'', ''B'', ''C''} ''A''
      [socket_emit ''C'' (system_error ''Authentication failed. Please refresh.'')] = []"
proof -
  have h: "map_of (activeUsers two_users) ''C'' = None"
    by (simp add: two_users_def)
  show ?thesis
    using h send_message_unregistered_rejected [OF h, of "tick 3" hi "{''A'', ''B'', ''C''}"]
      send_message_unregistered_rejected [OF h, of "tick 3" JUndefined "{''A'', ''B'', ''C''}"]
    by simp
qed

text \<open>
  Claim C5. Over any sequence of inbound events, from any connections and from any
  state, the log grows by exactly the Messages of the \<^verbatim>\<open>new_message\<close> events handed to
  \<^verbatim>\<open>io.emit\<close>, in the order of those calls; no \<^verbatim>\<open>new_message\<close> is emitted in any other
  way; and a client that is connected throughout sees these Messages in that order.
  The statement holds for every sequence, hence for every prefix of one: a Message is
  broadcast in the step that appends it.
\<close>

theorem broadcast_order_is_log_order:
  assumes "run s evs = (s', out, r)"
  shows "messageHistory s' = messageHistory s @ new_messages (io_events out)
       \<and> (\<forall>e\<in>set out. \<forall>m. emitted e = Some (new_message m) \<longrightarrow> e = io_emit (new_message m))
       \<and> (\<forall>c\<in>conns. new_messages (received conns c out) = new_messages (io_events out))"
proof -
  from assms have log: "messageHistory s' = messageHistory s @ new_messages (io_events out)"
    and ns: "list_all no_stray out" using run_log by blast+
  have "\<forall>e\<in>set out. \<forall>m. emitted e = Some (new_message m) \<longrightarrow> e = io_emit (new_message m)"
  proof (intro ballI allI impI)
    fix e m assume "e \<in> set out" and em: "emitted e = Some (new_message m)"
    with ns have "no_stray e" by (simp add: list_all_iff)
    with em show "e = io_emit (new_message m)" by (cases e) auto
  qed
  moreover have "\<forall>c\<in>conns. new_messages (received conns c out) = new_messages (io_events out)"
    using ns client_view by blast
  ultimately show ?thesis using log by blast
qed

theorem broadcast_order_is_log_order_witness:
  "run init scenario = (scenario_end, scenario_out, None)
 \<and> messageHistory scenario_end = [hi_message, yo_message]
 \<and> new_messages (io_events scenario_out) = [hi_message, yo_message]
 \<and> new_messages (received {''A'', ''B''} ''A'' scenario_out) = [hi_message, yo_message]"
proof -
  note inst = broadcast_order_is_log_order [OF scenario_run, of "{''A'', ''B''}"]
  have log: "messageHistory scenario_end = [hi_message, yo_message]"
    by (simp add: scenario_end_def)
  have "messageHistory init = []" by (simp add: init_def)
  with inst log have io: "new_messages (io_events scenario_out) = [hi_message, yo_message]"
    by simp
  from inst have "new_messages (received {''A'', ''B''} ''A'' scenario_out) =
      new_messages (io_events scenario_out)"
    by simp
  with io log scenario_run show ?thesis by simp
qed

text \<open>
  Claim C6. In a state whose registry is well formed, \<^verbatim>\<open>typing_start\<close> on a
  connection \<open>a\<close> that has a Session changes no state and emits \<^verbatim>\<open>typing_status\<close> with the
  identity \<open>a\<close>, the username of the Session and \<^verbatim>\<open>isTyping: true\<close> through
  \<^verbatim>\<open>socket.broadcast.emit\<close>: every connected client other than \<open>a\<close> receives it and \<open>a\<close>
  receives nothing. \<^verbatim>\<open>typing_stop\<close> does the same with \<^verbatim>\<open>isTyping: false\<close>.
\<close>

theorem typing_excludes_sender:
  assumes "registry_ok (activeUsers s)"
    and "map_of (activeUsers s) a = Some u"
  shows "on_typing_start a s =
           (s, [socket_broadcast_emit a (typing_status a (Some (username u)) True)])
       \<and> on_typing_stop a s =
           (s, [socket_broadcast_emit a (typing_status a (Some (username u)) False)])
       \<and> received conns a (snd (on_typing_start a s)) = []
       \<and> received conns a (snd (on_typing_stop a s)) = []
       \<and> (\<forall>cl\<in>conns. cl \<noteq> a \<longrightarrow>
             received conns cl (snd (on_typing_start a s)) =
               [typing_status a (Some (username u)) True]
           \<and> received conns cl (snd (on_typing_stop a s)) =
               [typing_status a (Some (username u)) False])"
proof -
  from assms have "session_ok a u" by (rule registry_ok_lookup)
  then have "user_id u = a" by (simp add: session_ok_def)
  with assms(2) show ?thesis
    by (simp add: on_typing_start_def on_typing_stop_def received_def)
qed

theorem typing_excludes_sender_witness:
  "registry_ok (activeUsers two_users)
 \<and> map_of (activeUsers two_users) ''A'' = Some alice
 \<and> on_typing_start ''A'' two_users =
      (two_users, [socket_broadcast_emit ''A'' (typing_status ''A'' (Some (JStr ''alice'')) True)])
 \<and> on_typing_stop ''A'' two_users =
      (two_users, [socket_broadcast_emit ''A'' (typing_status ''A'' (Some (JStr ''alice'')) False)])
 \<and> received {''A'', ''B''} ''A'' (snd (on_typing_start ''A'' two_users)) = []
 \<and> received {''A'', ''B''} ''B'' (snd (on_typing_start ''A'' two_users)) =
      [typing_status ''A'' (Some (JStr ''alice'')) True]"
proof -
  have h: "map_of (activeUsers two_users) ''A'' = Some alice"
    by (simp add: two_users_def)
  have name: "username alice = JStr ''alice''"
    by (simp add: alice_def)
  note inst = typing_excludes_sender [OF two_users_ok h, of "{''A'', ''B''}", unfolded name]
  note start = inst [THEN conjunct1]
  note stop = inst [THEN conjunct2, THEN conjunct1]
  note own = inst [THEN conjunct2, THEN conjunct2, THEN conjunct1]
  note others = inst [THEN conjunct2, THEN conjunct2, THEN conjunct2, THEN conjunct2]
  have "''B'' \<in> {''A'', ''B''}" by simp
  from bspec [OF others this]
  have b: "received {''A'', ''B''} ''B'' (snd (on_typing_start ''A'' two_users)) =
      [typing_status ''A'' (Some (JStr ''alice'')) True]"
    by simp
  show ?thesis
    by (intro conjI) (rule two_users_ok h start stop own b)+
qed



text \<open>
  Claim C8. \<^verbatim>\<open>typing_start\<close> and \<^verbatim>\<open>typing_stop\<close> on a connection that has no Session
  change no state and make no call on the transport: no event is emitted, to the sender
  or to anyone.
\<close>

theorem typing_unregistered_ignored:
  assumes "map_of (activeUsers s) sid = None"
  shows "on_typing_start sid s = (s, []) \<and> on_typing_stop sid s = (s, [])"
  using assms by (simp add: on_typing_start_def on_typing_stop_def)

theorem typing_unregistered_ignored_witness:
  "map_of (activeUsers two_users) ''C'' = None
 \<and> on_typing_start ''C'' two_users = (two_users, [])
 \<and> on_typing_stop ''C'' two_users = (two_users, [])"
proof -
  have h: "map_of (activeUsers two_users) ''C'' = None"
    by (simp add: two_users_def)
  show ?thesis using h typing_unregistered_ignored [OF h] by simp
qed

text \<open>
  Claim C9, as stated: the username of a Session is set once and no later event of
  the connection, a second \<^verbatim>\<open>register_user\<close> included, changes it. The handler has no
  guard against a second registration: line 56 assigns the Session again. After
  \<^verbatim>\<open>register_user('alice')\<close> and then \<^verbatim>\<open>register_user('bob')\<close> on the same connection the
  username held under its identity is bob.
\<close>

theorem username_immutable_counterexample:
  "map_option username
     (map_of (activeUsers (fst (on_register_user ''c1'' (JStr ''alice'') init))) ''c1'')
     = Some (JStr ''alice'')
 \<and> map_option username
     (map_of (activeUsers (fst (on_register_user ''c1'' (JStr ''bob'')
        (fst (on_register_user ''c1'' (JStr ''alice'') init))))) ''c1'')
     = Some (JStr ''bob'')
 \<and> JStr ''bob'' \<noteq> JStr ''alice''"
  by (simp add: on_register_user_def init_def Let_def)

text \<open>
  Claim C9, amended. A \<^verbatim>\<open>register_user\<close> with a username that passes the check of
  line 50 sets the username held under the identity of its connection, whether a Session
  was there or not. No other event changes it: over any sequence of events, from any
  connections, that has no such \<^verbatim>\<open>register_user\<close> of the connection \<open>c\<close>, a Session held
  under \<open>c\<close> at the end has the username it had at the start.
\<close>

theorem username_changes_only_by_registration:
  "(truthy uname \<longrightarrow>
      map_of (activeUsers (fst (on_register_user c uname s))) c =
        Some \<lparr>user_id = c, username = uname, user_status = ''online''\<rparr>)
 \<and> (run s evs = (s', out, r) \<and> \<not> list_ex (registers c) evs
      \<and> map_of (activeUsers s) c = Some u \<and> map_of (activeUsers s') c = Some u'
    \<longrightarrow> username u' = username u)"
proof (intro conjI impI)
  assume "truthy uname"
  then show "map_of (activeUsers (fst (on_register_user c uname s))) c =
        Some \<lparr>user_id = c, username = uname, user_status = ''online''\<rparr>"
    by (simp add: on_register_user_def Let_def update_conv')
next
  assume a: "run s evs = (s', out, r) \<and> \<not> list_ex (registers c) evs
      \<and> map_of (activeUsers s) c = Some u \<and> map_of (activeUsers s') c = Some u'"
  then have "map_of (activeUsers s) c = Some u'" using run_keeps_session by blast
  with a show "username u' = username u" by simp
qed

theorem username_changes_only_by_registration_witness:
  "truthy (JStr ''bob'')
 \<and> map_of (activeUsers (fst (on_register_user ''A'' (JStr ''bob'') two_users))) ''A'' =
      Some \<lparr>user_id = ''A'', username = JStr ''bob'', user_status = ''online''\<rparr>
 \<and> run init (tl scenario) =
      (\<lparr>activeUsers = [], messageHistory = [yo_message], socket_username = [(''B'', JStr ''bob'')]\<rparr>,
       [socket_emit ''B'' (user_registered ''B'' []),
        io_emit (user_joined ''B'' (JStr ''bob'')), io_emit (active_users [bob]),
        socket_emit ''A'' (system_error ''Authentication failed. Please refresh.''),
        io_emit (new_message yo_message), io_emit (typing_status ''B'' None False),
        io_emit (user_left ''B''), io_emit (active_users [])], None)
 \<and> run two_users (drop 2 scenario) =
      (scenario_end, drop 6 scenario_out, None)
 \<and> \<not> list_ex (registers ''A'') (drop 2 scenario)
 \<and> map_of (activeUsers two_users) ''A'' = Some alice
 \<and> map_of (activeUsers scenario_end) ''A'' = Some alice
 \<and> username alice = username alice"
proof -
  have t: "truthy (JStr ''bob'')" by simp
  have r1: "run init (tl scenario) =
      (\<lparr>activeUsers = [], messageHistory = [yo_message], socket_username = [(''B'', JStr ''bob'')]\<rparr>,
       [socket_emit ''B'' (user_registered ''B'' []),
        io_emit (user_joined ''B'' (JStr ''bob'')), io_emit (active_users [bob]),
        socket_emit ''A'' (system_error ''Authentication failed. Please refresh.''),
        io_emit (new_message yo_message), io_emit (typing_status ''B'' None False),
        io_emit (user_left ''B''), io_emit (active_users [])], None)"
    by (simp add: scenario_def init_def tick_def hi_def yo_def yo_message_def bob_def
      on_register_user_def on_send_message_def on_disconnect_def make_message_def
      object_values_def number_toString_def dec_digits.simps digit_char_def Let_def)
  have r2: "run two_users (drop 2 scenario) = (scenario_end, drop 6 scenario_out, None)"
    by (simp add: scenario_def scenario_end_def scenario_out_def two_users_def tick_def
      hi_def yo_def hi_message_def yo_message_def alice_def bob_def
      on_send_message_def on_disconnect_def make_message_def
      object_values_def number_toString_def dec_digits.simps digit_char_def Let_def)
  have n: "\<not> list_ex (registers ''A'') (drop 2 scenario)"
    by (simp add: scenario_def hi_def yo_def)
  have a: "map_of (activeUsers two_users) ''A'' = Some alice"
    by (simp add: two_users_def)
  have b: "map_of (activeUsers scenario_end) ''A'' = Some alice"
    by (simp add: scenario_end_def)
  from username_changes_only_by_registration
    [of "JStr ''bob''" "''A''" two_users "drop 2 scenario" scenario_end
        "drop 6 scenario_out" None alice alice] t r2 n a b
  have "map_of (activeUsers (fst (on_register_user ''A'' (JStr ''bob'') two_users))) ''A'' =
      Some \<lparr>user_id = ''A'', username = JStr ''bob'', user_status = ''online''\<rparr>"
    and "username alice = username alice"
    by blast+
  with t r1 r2 n a b show ?thesis by blast
qed

text \<open>
  Claim C10. In every state that a sequence of \<^verbatim>\<open>register_user\<close>, \<^verbatim>\<open>send_message\<close>,
  \<^verbatim>\<open>typing_start\<close>, \<^verbatim>\<open>typing_stop\<close> and \<^verbatim>\<open>disconnect\<close> events, on any connections, reaches
  from the initial state, the registry has at most one entry for a key, and the Session
  under a key \<open>k\<close> has the id \<open>k\<close>, a username that passed the check of line 50 (if it is
  a string, it is not empty) and the status \<^verbatim>\<open>'online'\<close>. Every \<^verbatim>\<open>active_users\<close> event
  emitted on the way carries only such Sessions, with distinct ids. This holds of the
  state that an exception leaves as well; and when no handler has thrown, every
  username in the registry has a string.
\<close>

theorem registry_invariant:
  assumes "run init evs = (s, out, r)"
  shows "registry_ok (activeUsers s)
       \<and> distinct (map fst (activeUsers s))
       \<and> (\<forall>k u. map_of (activeUsers s) k = Some u \<longrightarrow>
             user_id u = k \<and> truthy (username u) \<and> user_status u = ''online''
           \<and> (\<forall>n. username u = JStr n \<longrightarrow> n \<noteq> []))
       \<and> (\<forall>e\<in>set out. \<forall>us. emitted e = Some (active_users us) \<longrightarrow> snapshot_ok us)
       \<and> (r = None \<longrightarrow>
            (\<forall>k u. map_of (activeUsers s) k = Some u \<longrightarrow> can_stringify (username u)))"
proof -
  have "registry_ok (activeUsers init)" by (simp add: init_def registry_ok_def)
  with assms have ok: "registry_ok (activeUsers s)"
    and snap: "\<forall>e\<in>set out. \<forall>us. emitted e = Some (active_users us) \<longrightarrow> snapshot_ok us"
    using run_registry_ok by blast+
  have "\<forall>k u. map_of (activeUsers s) k = Some u \<longrightarrow>
             user_id u = k \<and> truthy (username u) \<and> user_status u = ''online''
           \<and> (\<forall>n. username u = JStr n \<longrightarrow> n \<noteq> [])"
  proof (intro allI impI)
    fix k u assume "map_of (activeUsers s) k = Some u"
    with ok have "session_ok k u" by (rule registry_ok_lookup)
    then have fields: "user_id u = k" "truthy (username u)" "user_status u = ''online''"
      by (simp_all add: session_ok_def)
    from fields(2) have "\<forall>n. username u = JStr n \<longrightarrow> n \<noteq> []" by auto
    with fields show "user_id u = k \<and> truthy (username u) \<and> user_status u = ''online''
           \<and> (\<forall>n. username u = JStr n \<longrightarrow> n \<noteq> [])" by blast
  qed
  moreover from ok have "distinct (map fst (activeUsers s))" by (simp add: registry_ok_def)
  moreover have "r = None \<longrightarrow>
      (\<forall>k u. map_of (activeUsers s) k = Some u \<longrightarrow> can_stringify (username u))"
  proof (intro allI impI)
    fix k u assume "r = None" and look: "map_of (activeUsers s) k = Some u"
    with assms have "run init evs = (s, out, None)" by simp
    moreover have "usernames_print (activeUsers init)"
      by (simp add: init_def usernames_print_def)
    ultimately have "usernames_print (activeUsers s)" using run_usernames_print by blast
    from this look show "can_stringify (username u)" by (rule usernames_print_lookup)
  qed
  ultimately show ?thesis using ok snap by blast
qed

theorem registry_invariant_witness:
  "run init scenario = (scenario_end, scenario_out, None)
 \<and> registry_ok (activeUsers scenario_end)
 \<and> map_of (activeUsers scenario_end) ''A'' = Some alice
 \<and> user_id alice = ''A'' \<and> truthy (username alice) \<and> user_status alice = ''online''
 \<and> io_emit (active_users [alice, bob]) \<in> set scenario_out
 \<and> snapshot_ok [alice, bob]
 \<and> can_stringify (username alice)"
proof -
  note inst = registry_invariant [OF scenario_run]
  have a: "map_of (activeUsers scenario_end) ''A'' = Some alice"
    by (simp add: scenario_end_def)
  have m: "io_emit (active_users [alice, bob]) \<in> set scenario_out"
    by (simp add: scenario_out_def)
  have e: "emitted (io_emit (active_users [alice, bob])) = Some (active_users [alice, bob])"
    by simp
  from inst have ok: "registry_ok (activeUsers scenario_end)" by blast
  from inst a have "user_id alice = ''A'' \<and> truthy (username alice) \<and> user_status alice = ''online''"
    by blast
  moreover from inst m e have "snapshot_ok [alice, bob]" by blast
  moreover from inst a have "can_stringify (username alice)" by blast
  ultimately show ?thesis using scenario_run ok a m by blast
qed

end
